theory Spec2Isabelle
  imports Complex_Main "HOL-Library.Log_Nat" "HOL-Library.Word"
begin

section \<open>Python numbers used by the pipeline\<close>

text \<open>
  Python floats are IEEE binary64 values. Every finite one is a rational number, and
  each arithmetic operation returns the exact result rounded to the nearest
  representable value, ties to the even mantissa. \<open>fl64\<close> is that rounding for
  values in the normal range (no overflow, no subnormals), which is where the pipeline's
  numbers live: page ratios, percentages and pixel values plus noise.
\<close>

definition pow2 :: "int \<Rightarrow> rat" where
  "pow2 e = (if 0 \<le> e then 2 ^ nat e else 1 / 2 ^ nat (- e))"

definition ilog2 :: "rat \<Rightarrow> int" where
  \<comment> \<open>\<open>\<lfloor>log\<^sub>2 q\<rfloor>\<close> for \<open>q > 0\<close>, from the bit lengths of numerator and denominator\<close>
  "ilog2 q = (case quotient_of q of (a, b) \<Rightarrow>
     let k = bitlen a - bitlen b in if pow2 k \<le> q then k else k - 1)"

definition round_half_even :: "rat \<Rightarrow> int" where
  "round_half_even q = (let n = \<lfloor>q\<rfloor>; r = q - of_int n in
     if r < 1 / 2 then n else if 1 / 2 < r then n + 1 else if even n then n else n + 1)"

definition fl64 :: "rat \<Rightarrow> rat" where
  \<comment> \<open>53 significant bits: scale into \<open>[2\<^sup>5\<^sup>2, 2\<^sup>5\<^sup>3)\<close>, round, scale back\<close>
  "fl64 q = (if q = 0 then 0 else
     let e = ilog2 \<bar>q\<bar> - 52 in of_int (round_half_even (q / pow2 e)) * pow2 e)"

definition float_to_int :: "rat \<Rightarrow> int" where
  \<comment> \<open>\<^verbatim>\<open>int(x)\<close> on a float, and the cast of numpy's \<^verbatim>\<open>astype\<close>: truncation towards zero\<close>
  "float_to_int r = (if 0 \<le> r then \<lfloor>r\<rfloor> else \<lceil>r\<rceil>)"

text \<open>
  \<^verbatim>\<open>progress = int((page_num + 1) / total_pages * 100)\<close>: a true division and a
  multiplication on floats, then truncation. Division by zero raises
  \<^verbatim>\<open>ZeroDivisionError\<close>, the value \<open>None\<close> here.
\<close>

definition py_progress :: "nat \<Rightarrow> nat \<Rightarrow> int option" where
  "py_progress page_num total_pages =
     (if total_pages = 0 then None
      else Some (float_to_int
                  (fl64 (fl64 (of_nat (page_num + 1) / of_nat total_pages) * 100))))"

section \<open>Images and the transformation chain\<close>

text \<open>
  A PIL image in mode RGB: its size and its samples, one byte per channel, three per
  pixel, row by row.
\<close>

record image =
  width :: nat
  height :: nat
  samples :: "8 word list"

text \<open>The fields of \<^verbatim>\<open>PDFCorruptor\<close>. The callback takes its own state, the
  percentage, the current page and the page count; it returns its new state and whether
  it raised.\<close>

type_synonym 'c callback = "'c \<Rightarrow> int \<Rightarrow> nat \<Rightarrow> nat \<Rightarrow> 'c \<times> bool"

record 'c corruptor =
  blur_amount :: int
  skew_amount :: int
  noise_amount :: int
  quality :: int
  dpi :: int
  progress_callback :: "'c callback option"

text \<open>
  The image libraries are not part of the repository. Their operations are parameters;
  each one may raise, which is the value \<open>None\<close>.
  \<^item> \<open>GaussianBlur r img\<close> is \<^verbatim>\<open>img.filter(ImageFilter.GaussianBlur(radius=r))\<close>;
  \<^item> \<open>warpAffine center angle dsize img\<close> is \<^verbatim>\<open>cv2.warpAffine\<close> with the matrix of
    \<^verbatim>\<open>cv2.getRotationMatrix2D(center, angle, 1.0)\<close> and \<^verbatim>\<open>BORDER_REFLECT\<close>;
  \<^item> \<open>JPEG_save q img\<close> is \<^verbatim>\<open>img.save(buf, format='JPEG', quality=q, optimize=True)\<close>
    and the bytes then read from the buffer.
\<close>

record imglib =
  GaussianBlur :: "int \<Rightarrow> image \<Rightarrow> image option"
  warpAffine :: "nat \<times> nat \<Rightarrow> int \<Rightarrow> nat \<times> nat \<Rightarrow> image \<Rightarrow> image option"
  JPEG_save :: "int \<Rightarrow> image \<Rightarrow> 8 word list option"

text \<open>
  \<^verbatim>\<open>np.random.normal(0, scale, shape)\<close> is a parameter too: given the scale it raises
  or returns one draw for every sample index. The draws are floats, so rationals.
\<close>

type_synonym normal = "int \<Rightarrow> (nat \<Rightarrow> rat) option"

definition add_blur :: "imglib \<Rightarrow> 'c corruptor \<Rightarrow> image \<Rightarrow> image option" where
  "add_blur L self img =
     (if blur_amount self = 0 then Some img
      else let blur_radius = max 1 (blur_amount self) in GaussianBlur L blur_radius img)"

definition add_skew :: "imglib \<Rightarrow> 'c corruptor \<Rightarrow> image \<Rightarrow> image option" where
  "add_skew L self img =
     (if skew_amount self = 0 then Some img
      else let h = height img; w = width img;
               angle = skew_amount self;
               center = (w div 2, h div 2)
           in warpAffine L center angle (w, h) img)"

definition np_clip :: "rat \<Rightarrow> rat \<Rightarrow> rat \<Rightarrow> rat" where
  \<comment> \<open>\<^verbatim>\<open>np.clip(a, a_min, a_max)\<close> is \<^verbatim>\<open>minimum(a_max, maximum(a, a_min))\<close>\<close>
  "np_clip a a_min a_max = min a_max (max a a_min)"

definition astype_uint8 :: "rat \<Rightarrow> 8 word" where
  \<comment> \<open>truncation towards zero; a value outside 0..255 wraps around modulo 256\<close>
  "astype_uint8 r = word_of_int (float_to_int r)"

definition noisy_float :: "(nat \<Rightarrow> rat) \<Rightarrow> image \<Rightarrow> nat \<Rightarrow> rat" where
  \<comment> \<open>entry \<open>i\<close> of \<^verbatim>\<open>np.clip(img_array + noise, 0, 255)\<close>, before the cast to uint8\<close>
  "noisy_float noise img i =
     np_clip (fl64 (of_nat (unat (samples img ! i)) + noise i)) 0 255"

definition add_noise :: "normal \<Rightarrow> 'c corruptor \<Rightarrow> image \<Rightarrow> image option" where
  "add_noise rng self img =
     (if noise_amount self = 0 then Some img
      else case rng (noise_amount self) of
             None \<Rightarrow> None
           | Some noise \<Rightarrow>
               Some (img\<lparr>samples :=
                  map (\<lambda>i. astype_uint8 (noisy_float noise img i))
                      [0..<length (samples img)]\<rparr>))"

definition process_page :: "imglib \<Rightarrow> normal \<Rightarrow> 'c corruptor \<Rightarrow> image \<Rightarrow> image option" where
  "process_page L rng self img =
     (case add_blur L self img of
        None \<Rightarrow> None
      | Some img1 \<Rightarrow>
          (case add_skew L self img1 of
             None \<Rightarrow> None
           | Some img2 \<Rightarrow> add_noise rng self img2))"

section \<open>The pipeline: \<^verbatim>\<open>PDFCorruptor.process_pdf\<close>\<close>

text \<open>
  PyMuPDF is a parameter as well. A source page is what rendering it gives:
  \<^verbatim>\<open>page.get_pixmap(matrix=fitz.Matrix(dpi / 72.0, dpi / 72.0))\<close> followed by
  \<^verbatim>\<open>Image.frombytes("RGB", [pix.width, pix.height], pix.samples)\<close>, as a function of the
  resolution, \<open>None\<close> when either call raises. \<open>fitz_open path\<close> is the list of pages of
  the document at \<open>path\<close>, \<open>None\<close> when \<^verbatim>\<open>fitz.open(path)\<close> raises. \<open>new_page\<close> and
  \<open>insert_image\<close> say whether the call returns (\<open>True\<close>) or raises.

  \<^verbatim>\<open>save\<close> writes to disk, and it can raise before it touches the target, or after it
  has created or partly written it. So \<open>save path pages before\<close>, for the target path,
  the pages of the document and what the path held before, is either \<open>Saved\<close>, and then
  the path holds the document, or \<open>SaveFailed left\<close>, and then the call raised and the path
  holds \<open>left\<close>: nothing, what it held before, or a truncated file.
\<close>

type_synonym pdf_page = "int \<Rightarrow> image option"

record out_page =
  page_width :: nat
  page_height :: nat
  picture :: "((nat \<times> nat \<times> nat \<times> nat) \<times> 8 word list) option"

datatype disk_file = Document "out_page list" | Truncated

datatype save_result = Saved | SaveFailed "disk_file option"

record pdflib =
  fitz_open :: "string \<Rightarrow> pdf_page list option"
  new_page :: "nat \<Rightarrow> nat \<Rightarrow> bool"
  insert_image :: "nat \<times> nat \<times> nat \<times> nat \<Rightarrow> 8 word list \<Rightarrow> bool"
  save :: "string \<Rightarrow> out_page list \<Rightarrow> disk_file option \<Rightarrow> save_result"

datatype handle = Unopened | Opened | Closed

text \<open>Where an exception comes from. \<open>Progress\<close> is the computation of the percentage,
  which is outside the \<^verbatim>\<open>try\<close> that guards the callback.\<close>

datatype stage = OpenDoc | Rasterize | Transform | Encode | Insert | Progress | Finalize

datatype ('s, 'a) result = Raised stage 's | Returned 'a 's

text \<open>
  What a run touches: the two document handles, the pages of the output document in
  memory, the files on disk (what each path holds), the
  number of calls of \<^verbatim>\<open>save\<close>, the state of the callback, the arguments of every call
  of the callback in order, and the number of times control was yielded
  (\<^verbatim>\<open>await asyncio.sleep(0)\<close>).
\<close>

record 'c state =
  pdf_doc :: handle
  output_doc :: handle
  output_pages :: "out_page list"
  files :: "string \<rightharpoonup> disk_file"
  save_calls :: nat
  cb_state :: 'c
  cb_calls :: "(int \<times> nat \<times> nat) list"
  yields :: nat

definition init_state :: "(string \<rightharpoonup> disk_file) \<Rightarrow> 'c \<Rightarrow> 'c state" where
  "init_state fs c =
     \<lparr>pdf_doc = Unopened, output_doc = Unopened, output_pages = [], files = fs,
      save_calls = 0, cb_state = c, cb_calls = [], yields = 0\<rparr>"

text \<open>The body of the \<^verbatim>\<open>for\<close> loop, for one \<open>page_num\<close>. \<open>rng page_num\<close> is the call of
  \<^verbatim>\<open>np.random.normal\<close> made while this page is processed.\<close>

definition page_body ::
  "imglib \<Rightarrow> (nat \<Rightarrow> normal) \<Rightarrow> pdflib \<Rightarrow> 'c corruptor \<Rightarrow> pdf_page list \<Rightarrow> nat \<Rightarrow> nat \<Rightarrow>
   'c state \<Rightarrow> ('c state, unit) result" where
  "page_body L rng F self doc total_pages page_num s =
     (if length doc \<le> page_num then Raised Rasterize s
      else let page = doc ! page_num in
      case page (dpi self) of
        None \<Rightarrow> Raised Rasterize s
      | Some img \<Rightarrow>
       (case process_page L (rng page_num) self img of
          None \<Rightarrow> Raised Transform s
        | Some processed_image \<Rightarrow>
         (case JPEG_save L (quality self) processed_image of
            None \<Rightarrow> Raised Encode s
          | Some img_bytes \<Rightarrow>
             if \<not> new_page F (width img) (height img) then Raised Insert s
             else
               let blank = \<lparr>page_width = width img, page_height = height img,
                            picture = None\<rparr>;
                   rect = (0, 0, width img, height img)
               in if \<not> insert_image F rect img_bytes
                  then Raised Insert (s\<lparr>output_pages := output_pages s @ [blank]\<rparr>)
                  else
                    let s1 = s\<lparr>output_pages := output_pages s @
                                  [blank\<lparr>picture := Some (rect, img_bytes)\<rparr>]\<rparr>
                    in (case progress_callback self of
                          None \<Rightarrow> Returned () (s1\<lparr>yields := yields s1 + 1\<rparr>)
                        | Some cb \<Rightarrow>
                           (case py_progress page_num total_pages of
                              None \<Rightarrow> Raised Progress s1
                            | Some progress \<Rightarrow>
                                let (c, raised) =
                                      cb (cb_state s1) progress (page_num + 1) total_pages
                                in Returned ()
                                     (s1\<lparr>cb_state := c,
                                         cb_calls := cb_calls s1 @
                                           [(progress, page_num + 1, total_pages)],
                                         yields := yields s1 + 1\<rparr>))))))"

fun page_loop ::
  "imglib \<Rightarrow> (nat \<Rightarrow> normal) \<Rightarrow> pdflib \<Rightarrow> 'c corruptor \<Rightarrow> pdf_page list \<Rightarrow> nat \<Rightarrow> nat list \<Rightarrow>
   'c state \<Rightarrow> ('c state, unit) result" where
  "page_loop L rng F self doc total_pages [] s = Returned () s"
| "page_loop L rng F self doc total_pages (page_num # rest) s =
     (case page_body L rng F self doc total_pages page_num s of
        Raised st s' \<Rightarrow> Raised st s'
      | Returned u s' \<Rightarrow> page_loop L rng F self doc total_pages rest s')"

text \<open>The \<^verbatim>\<open>try\<close> block. \<^verbatim>\<open>fitz.open()\<close> without arguments, \<^verbatim>\<open>len\<close> and \<^verbatim>\<open>close\<close>
  are taken not to raise.\<close>

definition try_block ::
  "imglib \<Rightarrow> (nat \<Rightarrow> normal) \<Rightarrow> pdflib \<Rightarrow> 'c corruptor \<Rightarrow> string \<Rightarrow> string \<Rightarrow>
   'c state \<Rightarrow> ('c state, nat) result" where
  "try_block L rng F self pdf_path output_path s =
     (case fitz_open F pdf_path of
        None \<Rightarrow> Raised OpenDoc s
      | Some doc \<Rightarrow>
          let s1 = s\<lparr>pdf_doc := Opened\<rparr>;
              s2 = s1\<lparr>output_doc := Opened, output_pages := []\<rparr>;
              total_pages = length doc
          in (case page_loop L rng F self doc total_pages [0..<total_pages] s2 of
               Raised st s3 \<Rightarrow> Raised st s3
             | Returned u s3 \<Rightarrow>
                 let s4 = s3\<lparr>save_calls := save_calls s3 + 1\<rparr>;
                     fs = files s4
                 in (case save F output_path (output_pages s4) (fs output_path) of
                       SaveFailed left \<Rightarrow>
                         Raised Finalize (s4\<lparr>files := fs(output_path := left)\<rparr>)
                     | Saved \<Rightarrow>
                         let s5 = s4\<lparr>files := fs(output_path \<mapsto>
                                                  Document (output_pages s4))\<rparr>;
                             pages_count = length doc;
                             s6 = s5\<lparr>pdf_doc := Closed\<rparr>;
                             s7 = s6\<lparr>output_doc := Closed\<rparr>
                         in Returned pages_count s7)))"

text \<open>\<^verbatim>\<open>process_pdf\<close>: the \<^verbatim>\<open>try\<close> block and its \<^verbatim>\<open>except Exception\<close>, which prints
  and returns \<^verbatim>\<open>(False, 0)\<close>. The result is the returned pair and the state left behind.\<close>

definition process_pdf ::
  "imglib \<Rightarrow> (nat \<Rightarrow> normal) \<Rightarrow> pdflib \<Rightarrow> 'c corruptor \<Rightarrow> string \<Rightarrow> string \<Rightarrow>
   (string \<rightharpoonup> disk_file) \<Rightarrow> 'c \<Rightarrow> (bool \<times> nat) \<times> 'c state" where
  "process_pdf L rng F self pdf_path output_path fs c =
     (case try_block L rng F self pdf_path output_path (init_state fs c) of
        Returned pages_count s \<Rightarrow> ((True, pages_count), s)
      | Raised st s \<Rightarrow> ((False, 0), s))"

text \<open>A page processes without error when none of its four stages raises.\<close>

definition page_ok ::
  "imglib \<Rightarrow> (nat \<Rightarrow> normal) \<Rightarrow> pdflib \<Rightarrow> 'c corruptor \<Rightarrow> pdf_page list \<Rightarrow> nat \<Rightarrow> bool" where
  "page_ok L rng F self doc page_num =
     (let page = doc ! page_num in
      case page (dpi self) of
        None \<Rightarrow> False
      | Some img \<Rightarrow>
         (case process_page L (rng page_num) self img of
            None \<Rightarrow> False
          | Some processed_image \<Rightarrow>
             (case JPEG_save L (quality self) processed_image of
                None \<Rightarrow> False
              | Some img_bytes \<Rightarrow>
                  new_page F (width img) (height img) \<and>
                  insert_image F (0, 0, width img, height img) img_bytes)))"

definition full_bleed :: "out_page \<Rightarrow> bool" where
  "full_bleed p =
     (case picture p of
        None \<Rightarrow> False
      | Some (rect, stream) \<Rightarrow> rect = (0, 0, page_width p, page_height p))"

section \<open>The progress callback of \<^verbatim>\<open>process_pdf_file\<close>\<close>

text \<open>
  The closure keeps \<^verbatim>\<open>last_update_time[0]\<close> between calls. One call takes the reading
  of \<^verbatim>\<open>time.time()\<close> and the stored time, and returns the new stored time and what it
  did: nothing, an edit of the message that failed (the error is swallowed), or an edit
  that went through. \<open>edit_text\<close> says whether \<^verbatim>\<open>progress_msg.edit_text\<close> returns for
  a message, given by the number of filled cells of the bar and the three numbers shown.
  Clock readings are seconds since 1970; the subtraction of two of them is taken as exact.
\<close>

datatype emission = Suppressed | EditFailed | Edited

definition progress_callback_fn ::
  "(int \<times> int \<times> nat \<times> nat \<Rightarrow> bool) \<Rightarrow> rat \<Rightarrow> rat \<Rightarrow> int \<Rightarrow> nat \<Rightarrow> nat \<Rightarrow> rat \<times> emission" where
  "progress_callback_fn edit_text current_time last_update_time progress current_page
       total_pages =
     (if current_time - last_update_time < 2 \<and> progress < 100
      then (last_update_time, Suppressed)
      else
        let bar_length = 20;
            filled = float_to_int (fl64 (of_int (bar_length * progress) / 100))
        in (current_time,
            if edit_text (filled, progress, current_page, total_pages) then Edited
            else EditFailed))"

text \<open>A sequence of calls, each with its clock reading, from a stored time.\<close>

fun reporter_run ::
  "(int \<times> int \<times> nat \<times> nat \<Rightarrow> bool) \<Rightarrow> rat \<Rightarrow> (rat \<times> int \<times> nat \<times> nat) list \<Rightarrow> emission list" where
  "reporter_run edit_text last_update_time [] = []"
| "reporter_run edit_text last_update_time ((current_time, progress, current_page, total_pages) # calls) =
     (let (t, e) = progress_callback_fn edit_text current_time last_update_time progress
                     current_page total_pages
      in e # reporter_run edit_text t calls)"

section \<open>Parameter input: \<^verbatim>\<open>handle_text_input\<close> and the settings table\<close>

datatype sqlval = IntV int | TextV string

type_synonym row = "string \<rightharpoonup> sqlval"

type_synonym database = "int \<rightharpoonup> row"

definition default_settings :: row where
  "default_settings = map_of
     [(''blur'', IntV 1), (''skew'', IntV 0), (''noise'', IntV 2), (''quality'', IntV 50),
      (''dpi'', IntV 150), (''filename_prefix'', TextV ''corrupted_'')]"

definition get_settings :: "database \<Rightarrow> int \<Rightarrow> row \<times> database" where
  \<comment> \<open>a user without a row gets the defaults, which are inserted\<close>
  "get_settings db user_id =
     (case db user_id of
        Some result \<Rightarrow> (result, db)
      | None \<Rightarrow> (default_settings, db(user_id \<mapsto> default_settings)))"

definition update_settings :: "database \<Rightarrow> int \<Rightarrow> (string \<times> sqlval) list \<Rightarrow> database" where
  \<comment> \<open>\<^verbatim>\<open>UPDATE user_settings SET ... WHERE user_id = ?\<close>: no row, no change\<close>
  "update_settings db user_id kwargs =
     (let updates = filter (\<lambda>(key, v). key \<in> set [''blur'', ''skew'', ''noise'', ''quality'',
                                                   ''dpi'', ''filename_prefix'']) kwargs
      in if updates = [] then db
         else case db user_id of
                None \<Rightarrow> db
              | Some r \<Rightarrow> db(user_id \<mapsto> foldl (\<lambda>r' (key, v). r'(key \<mapsto> v)) r updates))"

text \<open>\<^verbatim>\<open>int(text)\<close> and \<^verbatim>\<open>text.strip()\<close> are Python's; \<open>py_int\<close> is \<open>None\<close> where
  \<^verbatim>\<open>int\<close> raises \<^verbatim>\<open>ValueError\<close>.\<close>

record builtins =
  py_int :: "string \<Rightarrow> int option"
  py_strip :: "string \<Rightarrow> string"

text \<open>The handler, on the settings table and the entry \<^verbatim>\<open>user_data['adjusting']\<close>;
  the replies to the user are left out.\<close>

definition handle_text_input ::
  "builtins \<Rightarrow> database \<Rightarrow> int \<Rightarrow> string option \<Rightarrow> string \<Rightarrow> database \<times> string option" where
  "handle_text_input B db user_id adjusting text =
     (case adjusting of
        None \<Rightarrow> (db, adjusting)
      | Some a \<Rightarrow>
          if a = [] then (db, adjusting)
          else if a = ''filename'' then
            let prefix = py_strip B text;
                prefix = (if prefix = ''0'' then [] else prefix);
                db1 = update_settings db user_id [(''filename_prefix'', TextV prefix)]
            in (snd (get_settings db1 user_id), None)
          else
            (case py_int B text of
               None \<Rightarrow> (db, adjusting)
             | Some v \<Rightarrow>
                 let db1 =
                   (if a = ''blur'' then
                      let v = max 0 (min 20 v) in update_settings db user_id [(''blur'', IntV v)]
                    else if a = ''skew'' then
                      let v = max (- 45) (min 45 v) in update_settings db user_id [(''skew'', IntV v)]
                    else if a = ''noise'' then
                      let v = max 0 (min 50 v) in update_settings db user_id [(''noise'', IntV v)]
                    else if a = ''quality'' then
                      let v = max 10 (min 100 v) in update_settings db user_id [(''quality'', IntV v)]
                    else if a = ''dpi'' then
                      let v = max 72 (min 300 v) in update_settings db user_id [(''dpi'', IntV v)]
                    else db)
                 in (snd (get_settings db1 user_id), None)))"

definition stored :: "database \<Rightarrow> int \<Rightarrow> string \<Rightarrow> sqlval option" where
  "stored db user_id key = (case db user_id of None \<Rightarrow> None | Some r \<Rightarrow> r key)"

text \<open>The ranges of the five parameters, as the data model of the specification gives them.\<close>

definition documented_ranges :: "(string \<times> int \<times> int) list" where
  "documented_ranges =
     [(''blur'', 0, 20), (''skew'', - 45, 45), (''noise'', 0, 50), (''quality'', 10, 100),
      (''dpi'', 72, 300)]"

section \<open>Auxiliary notions for the proofs\<close>

fun result_state :: "('s, 'a) result \<Rightarrow> 's" where
  "result_state (Raised st s) = s"
| "result_state (Returned a s) = s"

fun raised_at :: "('s, 'a) result \<Rightarrow> stage option" where
  "raised_at (Raised st s) = Some st"
| "raised_at (Returned a s) = None"

definition made_page :: "image \<Rightarrow> 8 word list \<Rightarrow> out_page" where
  "made_page img img_bytes =
     \<lparr>page_width = width img, page_height = height img,
      picture = Some ((0, 0, width img, height img), img_bytes)\<rparr>"

text \<open>The arguments of the callback at page \<open>page_num\<close>, none without a callback.\<close>

definition call_of :: "'c corruptor \<Rightarrow> nat \<Rightarrow> nat \<Rightarrow> (int \<times> nat \<times> nat) list" where
  "call_of self total_pages page_num =
     (case progress_callback self of
        None \<Rightarrow> []
      | Some cb \<Rightarrow> [(the (py_progress page_num total_pages), page_num + 1, total_pages)])"

text \<open>The state after the two documents are opened.\<close>

definition opened :: "'c state \<Rightarrow> 'c state" where
  "opened s = s\<lparr>pdf_doc := Opened, output_doc := Opened, output_pages := []\<rparr>"

text \<open>A state and a result without what belongs to the callback.\<close>

definition view ::
  "'c state \<Rightarrow> handle \<times> handle \<times> out_page list \<times> (string \<rightharpoonup> disk_file) \<times> nat \<times> nat" where
  "view s = (pdf_doc s, output_doc s, output_pages s, files s, save_calls s, yields s)"

fun result_view ::
  "('c state, 'a) result \<Rightarrow>
   stage option \<times> 'a option \<times> handle \<times> handle \<times> out_page list \<times>
   (string \<rightharpoonup> disk_file) \<times> nat \<times> nat" where
  "result_view (Raised st s) = (Some st, None, view s)"
| "result_view (Returned a s) = (None, Some a, view s)"

section \<open>Concrete inputs\<close>

text \<open>
  Libraries small enough to evaluate: the blur halves every sample, the rotation reverses
  the samples, the encoder keeps two bytes and rejects a quality below 1, every noise draw
  is \<open>-3\<close> and a negative scale raises. Pages are single pixels and cannot be rendered at
  a resolution below 1. \<^verbatim>\<open>in.pdf\<close> has three pages, \<^verbatim>\<open>empty.pdf\<close> none, and no other
  path opens. \<^verbatim>\<open>save\<close> refuses a document without pages and a target under
  \<^verbatim>\<open>/missing\<close>; both times it raises before it touches the target.
\<close>

definition ex_lib :: imglib where
  "ex_lib =
     \<lparr>GaussianBlur = (\<lambda>r img. Some (img\<lparr>samples := map (drop_bit 1) (samples img)\<rparr>)),
      warpAffine = (\<lambda>center angle dsize img. Some (img\<lparr>samples := rev (samples img)\<rparr>)),
      JPEG_save = (\<lambda>q img. if q < 1 then None else Some (take 2 (samples img)))\<rparr>"

definition ex_rng :: normal where
  "ex_rng = (\<lambda>scale. if scale < 0 then None else Some (\<lambda>i. - 3))"

definition ex_rngs :: "nat \<Rightarrow> normal" where
  "ex_rngs = (\<lambda>page_num. ex_rng)"

definition ex_page :: "8 word \<Rightarrow> pdf_page" where
  "ex_page k = (\<lambda>dpi. if dpi < 1 then None
                       else Some \<lparr>width = 1, height = 1, samples = [k, k + 1, k + 2]\<rparr>)"

definition ex_doc :: "pdf_page list" where
  "ex_doc = [ex_page 10, ex_page 20, ex_page 30]"

definition ex_fitz :: pdflib where
  "ex_fitz =
     \<lparr>fitz_open = (\<lambda>path. if path = ''in.pdf'' then Some ex_doc
                          else if path = ''empty.pdf'' then Some [] else None),
      new_page = (\<lambda>w h. True),
      insert_image = (\<lambda>rect stream. True),
      save = (\<lambda>path pages before.
                if pages = [] \<or> path = ''/missing/out.pdf'' then SaveFailed before
                else Saved)\<rparr>"

text \<open>The same library with a \<^verbatim>\<open>save\<close> that accepts everything.\<close>

definition lenient_fitz :: pdflib where
  "lenient_fitz = ex_fitz\<lparr>save := (\<lambda>path pages before. Saved)\<rparr>"

text \<open>The same library on a full disk: \<^verbatim>\<open>save\<close> creates the target, writes a part of the
  document and raises.\<close>

definition full_disk_fitz :: pdflib where
  "full_disk_fitz = ex_fitz\<lparr>save := (\<lambda>path pages before. SaveFailed (Some Truncated))\<rparr>"

definition ex_self :: "'c corruptor" where
  "ex_self =
     \<lparr>blur_amount = 5, skew_amount = 10, noise_amount = 20, quality = 40, dpi = 100,
      progress_callback = None\<rparr>"

text \<open>A callback that counts its calls and raises in each of them.\<close>

definition throwing :: "nat callback" where
  "throwing = (\<lambda>c progress current_page total_pages. (c + 1, True))"

text \<open>A callback that counts its calls and returns.\<close>

definition counting :: "nat callback" where
  "counting = (\<lambda>c progress current_page total_pages. (c + 1, False))"

text \<open>Scenario A of the specification: every effect switched off.\<close>

definition plain_self :: "'c corruptor" where
  "plain_self =
     \<lparr>blur_amount = 0, skew_amount = 0, noise_amount = 0, quality = 50, dpi = 150,
      progress_callback = None\<rparr>"

definition black_pixel :: image where
  "black_pixel = \<lparr>width = 1, height = 1, samples = [0, 0, 0]\<rparr>"

text \<open>Extreme draws on a pixel with a dark, a bright and a saturated channel.\<close>

definition extreme_draws :: "nat \<Rightarrow> rat" where
  "extreme_draws i = (if i = 0 then - 1000 else if i = 1 then 1000 else 1 / 2)"

definition extreme_rng :: normal where
  "extreme_rng = (\<lambda>scale. if scale < 0 then None else Some extreme_draws)"

definition bright_pixel :: image where
  "bright_pixel = \<lparr>width = 1, height = 1, samples = [1, 200, 255]\<rparr>"

definition ex_builtins :: builtins where
  "ex_builtins =
     \<lparr>py_int = (\<lambda>t. if t = ''25'' then Some 25 else if t = ''7'' then Some 7 else None),
      py_strip = (\<lambda>t. t)\<rparr>"

definition ex_db :: database where
  "ex_db = [42 \<mapsto> default_settings]"

section \<open>Lemmas\<close>

subsection \<open>Numbers\<close>




lemma np_clip_bounds: "0 \<le> np_clip a 0 255 \<and> np_clip a 0 255 \<le> 255"
  by (simp add: np_clip_def)

lemma astype_uint8_exact:
  assumes "0 \<le> r" "r \<le> 255"
  shows "uint (astype_uint8 r) = \<lfloor>r\<rfloor>"
proof -
  have "0 \<le> \<lfloor>r\<rfloor>" using assms by simp
  moreover have "\<lfloor>r\<rfloor> \<le> 255" using assms by (simp add: floor_le_iff)
  ultimately have "\<lfloor>r\<rfloor> mod 256 = \<lfloor>r\<rfloor>" by simp
  then show ?thesis
    using assms by (simp add: astype_uint8_def float_to_int_def uint_word_of_int take_bit_eq_mod)
qed

subsection \<open>The page loop\<close>

lemma full_bleed_made_page: "full_bleed (made_page img b)"
  by (simp add: full_bleed_def made_page_def)

lemma page_body_frame:
  "files (result_state (page_body L rng F self doc total_pages page_num s)) = files s \<and>
   save_calls (result_state (page_body L rng F self doc total_pages page_num s)) = save_calls s \<and>
   pdf_doc (result_state (page_body L rng F self doc total_pages page_num s)) = pdf_doc s \<and>
   output_doc (result_state (page_body L rng F self doc total_pages page_num s)) = output_doc s"
  by (simp add: page_body_def Let_def split: option.splits prod.splits)

lemma page_body_Returned:
  assumes "page_body L rng F self doc total_pages page_num s = Returned u s'"
  shows "\<exists>img b. output_pages s' = output_pages s @ [made_page img b] \<and>
           cb_calls s' = cb_calls s @ call_of self total_pages page_num \<and>
           yields s' = yields s + 1"
  using assms
  by (auto simp: page_body_def Let_def made_page_def call_of_def
           split: option.splits prod.splits if_splits)

lemma page_body_ok:
  assumes "page_num < length doc" "page_ok L rng F self doc page_num"
    "page_num < total_pages"
  shows "\<exists>s'. page_body L rng F self doc total_pages page_num s = Returned () s'"
  using assms
  by (auto simp: page_body_def page_ok_def Let_def py_progress_def
           split: option.splits prod.splits if_splits)

lemma page_loop_frame:
  "files (result_state (page_loop L rng F self doc total_pages ns s)) = files s \<and>
   save_calls (result_state (page_loop L rng F self doc total_pages ns s)) = save_calls s \<and>
   pdf_doc (result_state (page_loop L rng F self doc total_pages ns s)) = pdf_doc s \<and>
   output_doc (result_state (page_loop L rng F self doc total_pages ns s)) = output_doc s"
proof (induction ns arbitrary: s)
  case Nil
  then show ?case by simp
next
  case (Cons n ns)
  show ?case
  proof (cases "page_body L rng F self doc total_pages n s")
    case (Raised st s')
    then show ?thesis using page_body_frame [of L rng F self doc total_pages n s] by simp
  next
    case (Returned u s')
    then show ?thesis
      using page_body_frame [of L rng F self doc total_pages n s] Cons.IH [of s'] by simp
  qed
qed

lemma page_loop_Returned:
  assumes "page_loop L rng F self doc total_pages ns s = Returned u s'"
  shows "length (output_pages s') = length (output_pages s) + length ns \<and>
         (list_all full_bleed (output_pages s) \<longrightarrow> list_all full_bleed (output_pages s')) \<and>
         cb_calls s' = cb_calls s @ concat (map (call_of self total_pages) ns) \<and>
         yields s' = yields s + length ns"
  using assms
proof (induction ns arbitrary: s)
  case Nil
  then show ?case by simp
next
  case (Cons n ns)
  from Cons.prems obtain s1 where b: "page_body L rng F self doc total_pages n s = Returned () s1"
    and l: "page_loop L rng F self doc total_pages ns s1 = Returned u s'"
    by (auto split: result.splits)
  from page_body_Returned [OF b] obtain img bb where
    o: "output_pages s1 = output_pages s @ [made_page img bb]"
    and c: "cb_calls s1 = cb_calls s @ call_of self total_pages n"
    and y: "yields s1 = yields s + 1" by blast
  from Cons.IH [OF l] o c y show ?case by (simp add: full_bleed_made_page)
qed

lemma page_loop_ok:
  assumes "\<forall>n \<in> set ns. n < length doc \<and> n < total_pages \<and> page_ok L rng F self doc n"
  shows "\<exists>s'. page_loop L rng F self doc total_pages ns s = Returned () s'"
  using assms
proof (induction ns arbitrary: s)
  case Nil
  then show ?case by simp
next
  case (Cons n ns)
  from Cons.prems obtain s1 where b: "page_body L rng F self doc total_pages n s = Returned () s1"
    using page_body_ok [of n doc L rng F self total_pages s] by auto
  from Cons.IH [of s1] Cons.prems obtain s' where "page_loop L rng F self doc total_pages ns s1 = Returned () s'"
    by auto
  then show ?case using b by simp
qed

subsection \<open>The callback has no influence\<close>

lemma add_blur_no_callback:
  "add_blur L (self\<lparr>progress_callback := cb\<rparr>) = add_blur L self"
  by (simp add: add_blur_def fun_eq_iff)

lemma add_skew_no_callback:
  "add_skew L (self\<lparr>progress_callback := cb\<rparr>) = add_skew L self"
  by (simp add: add_skew_def fun_eq_iff)

lemma add_noise_no_callback:
  "add_noise rng (self\<lparr>progress_callback := cb\<rparr>) = add_noise rng self"
  by (simp add: add_noise_def fun_eq_iff)

lemma process_page_no_callback:
  "process_page L rng (self\<lparr>progress_callback := cb\<rparr>) img = process_page L rng self img"
  by (simp add: process_page_def add_blur_no_callback add_skew_no_callback
        add_noise_no_callback cong: option.case_cong)

lemma page_body_view:
  assumes "view s = view t" "page_num < total_pages"
  shows "result_view (page_body L rng F (self\<lparr>progress_callback := cb\<rparr>) doc total_pages page_num s) =
         result_view (page_body L rng F (self\<lparr>progress_callback := None\<rparr>) doc total_pages page_num t)"
  using assms
  by (cases cb)
     (auto simp: page_body_def process_page_no_callback Let_def view_def py_progress_def
           split: option.splits prod.splits)

lemma result_view_cases:
  assumes "result_view r1 = result_view r2"
  shows "(\<exists>st s1 s2. r1 = Raised st s1 \<and> r2 = Raised st s2 \<and> view s1 = view s2) \<or>
         (\<exists>a s1 s2. r1 = Returned a s1 \<and> r2 = Returned a s2 \<and> view s1 = view s2)"
  using assms by (cases r1; cases r2) auto

lemma page_loop_view:
  assumes "view s = view t" "\<forall>n \<in> set ns. n < total_pages"
  shows "result_view (page_loop L rng F (self\<lparr>progress_callback := cb\<rparr>) doc total_pages ns s) =
         result_view (page_loop L rng F (self\<lparr>progress_callback := None\<rparr>) doc total_pages ns t)"
  using assms
proof (induction ns arbitrary: s t)
  case Nil
  then show ?case by simp
next
  case (Cons n ns)
  have "result_view (page_body L rng F (self\<lparr>progress_callback := cb\<rparr>) doc total_pages n s) =
        result_view (page_body L rng F (self\<lparr>progress_callback := None\<rparr>) doc total_pages n t)"
    using page_body_view Cons.prems by auto
  from result_view_cases [OF this] show ?case
  proof
    assume "\<exists>st s1 s2. page_body L rng F (self\<lparr>progress_callback := cb\<rparr>) doc total_pages n s = Raised st s1 \<and>
        page_body L rng F (self\<lparr>progress_callback := None\<rparr>) doc total_pages n t = Raised st s2 \<and> view s1 = view s2"
    then show ?thesis by auto
  next
    assume "\<exists>a s1 s2. page_body L rng F (self\<lparr>progress_callback := cb\<rparr>) doc total_pages n s = Returned a s1 \<and>
        page_body L rng F (self\<lparr>progress_callback := None\<rparr>) doc total_pages n t = Returned a s2 \<and> view s1 = view s2"
    then obtain a s1 s2 where
      1: "page_body L rng F (self\<lparr>progress_callback := cb\<rparr>) doc total_pages n s = Returned a s1"
      and 2: "page_body L rng F (self\<lparr>progress_callback := None\<rparr>) doc total_pages n t = Returned a s2"
      and 3: "view s1 = view s2" by blast
    from Cons.IH [OF 3] Cons.prems(2) 1 2 show ?thesis by simp
  qed
qed

lemma try_block_view:
  assumes "view s = view t"
  shows "result_view (try_block L rng F (self\<lparr>progress_callback := cb\<rparr>) pdf_path output_path s) =
         result_view (try_block L rng F (self\<lparr>progress_callback := None\<rparr>) pdf_path output_path t)"
proof (cases "fitz_open F pdf_path")
  case None
  then show ?thesis using assms by (simp add: try_block_def)
next
  case (Some doc)
  let ?s2 = "s\<lparr>pdf_doc := Opened, output_doc := Opened, output_pages := []\<rparr>"
  let ?t2 = "t\<lparr>pdf_doc := Opened, output_doc := Opened, output_pages := []\<rparr>"
  have v: "view ?s2 = view ?t2" using assms by (simp add: view_def)
  have "result_view (page_loop L rng F (self\<lparr>progress_callback := cb\<rparr>) doc (length doc) [0..<length doc] ?s2) =
        result_view (page_loop L rng F (self\<lparr>progress_callback := None\<rparr>) doc (length doc) [0..<length doc] ?t2)"
    by (rule page_loop_view [OF v]) simp
  from result_view_cases [OF this] show ?thesis
    using Some by (auto simp: try_block_def Let_def view_def split: save_result.splits)
qed

lemma process_pdf_view:
  "fst (process_pdf L rng F (self\<lparr>progress_callback := cb\<rparr>) pdf_path output_path fs c) =
   fst (process_pdf L rng F (self\<lparr>progress_callback := None\<rparr>) pdf_path output_path fs c) \<and>
   view (snd (process_pdf L rng F (self\<lparr>progress_callback := cb\<rparr>) pdf_path output_path fs c)) =
   view (snd (process_pdf L rng F (self\<lparr>progress_callback := None\<rparr>) pdf_path output_path fs c))"
proof -
  have "result_view (try_block L rng F (self\<lparr>progress_callback := cb\<rparr>) pdf_path output_path (init_state fs c)) =
        result_view (try_block L rng F (self\<lparr>progress_callback := None\<rparr>) pdf_path output_path (init_state fs c))"
    by (rule try_block_view) simp
  from result_view_cases [OF this] show ?thesis
    by (auto simp: process_pdf_def)
qed

subsection \<open>The \<^verbatim>\<open>try\<close> block\<close>

lemma try_block_unfold:
  "try_block L rng F self pdf_path output_path s =
     (case fitz_open F pdf_path of
        None \<Rightarrow> Raised OpenDoc s
      | Some doc \<Rightarrow>
         (case page_loop L rng F self doc (length doc) [0..<length doc] (opened s) of
            Raised st s3 \<Rightarrow> Raised st s3
          | Returned u s3 \<Rightarrow>
             (case save F output_path (output_pages s3) (files s3 output_path) of
                Saved \<Rightarrow>
                  Returned (length doc)
                    (s3\<lparr>save_calls := save_calls s3 + 1,
                        files := (files s3)(output_path \<mapsto> Document (output_pages s3)),
                        pdf_doc := Closed, output_doc := Closed\<rparr>)
              | SaveFailed left \<Rightarrow>
                  Raised Finalize
                    (s3\<lparr>save_calls := save_calls s3 + 1,
                        files := (files s3)(output_path := left)\<rparr>))))"
  by (simp add: try_block_def opened_def Let_def
           split: option.splits result.splits save_result.splits)

lemma try_block_Raised:
  assumes "try_block L rng F self pdf_path output_path s = Raised st s'"
  shows "(st \<noteq> Finalize \<longrightarrow> files s' = files s \<and> save_calls s' = save_calls s) \<and>
         (st \<noteq> OpenDoc \<longrightarrow> pdf_doc s' = Opened \<and> output_doc s' = Opened)"
proof (cases "fitz_open F pdf_path")
  case None
  then show ?thesis using assms by (simp add: try_block_unfold)
next
  case (Some doc)
  let ?r = "page_loop L rng F self doc (length doc) [0..<length doc] (opened s)"
  have fr: "files (result_state ?r) = files s \<and> save_calls (result_state ?r) = save_calls s \<and>
            pdf_doc (result_state ?r) = Opened \<and> output_doc (result_state ?r) = Opened"
    using page_loop_frame [of L rng F self doc "length doc" "[0..<length doc]" "opened s"]
    by (simp add: opened_def)
  show ?thesis
  proof (cases ?r)
    case (Raised st3 s3)
    then show ?thesis using assms Some fr by (simp add: try_block_unfold)
  next
    case (Returned u s3)
    then obtain left where "st = Finalize"
      and "s' = s3\<lparr>save_calls := save_calls s3 + 1, files := (files s3)(output_path := left)\<rparr>"
      using assms Some by (auto simp: try_block_unfold split: save_result.splits)
    then show ?thesis using fr Returned by simp
  qed
qed


lemma loop_all_ok:
  assumes "\<forall>n < length doc. page_ok L rng F self doc n"
  shows "\<exists>s3. page_loop L rng F self doc (length doc) [0..<length doc] (opened s) = Returned () s3 \<and>
           length (output_pages s3) = length doc \<and> list_all full_bleed (output_pages s3) \<and>
           files s3 = files s \<and> save_calls s3 = save_calls s \<and>
           pdf_doc s3 = Opened \<and> output_doc s3 = Opened \<and>
           cb_calls s3 = cb_calls s @ concat (map (call_of self (length doc)) [0..<length doc])"
proof -
  obtain s3 where l: "page_loop L rng F self doc (length doc) [0..<length doc] (opened s) = Returned () s3"
    using page_loop_ok [of "[0..<length doc]" doc "length doc" L rng F self "opened s"] assms by auto
  have fr: "files s3 = files s \<and> save_calls s3 = save_calls s \<and>
            pdf_doc s3 = Opened \<and> output_doc s3 = Opened"
    using page_loop_frame [of L rng F self doc "length doc" "[0..<length doc]" "opened s"] l
    by (simp add: opened_def)
  from page_loop_Returned [OF l] fr l show ?thesis by (simp add: opened_def)
qed

lemma process_pdf_all_ok:
  assumes "fitz_open F pdf_path = Some doc" and "\<forall>n < length doc. page_ok L rng F self doc n"
  shows "\<exists>s3. length (output_pages s3) = length doc \<and> list_all full_bleed (output_pages s3) \<and>
           files s3 = fs \<and> pdf_doc s3 = Opened \<and> output_doc s3 = Opened \<and>
           cb_calls s3 = concat (map (call_of self (length doc)) [0..<length doc]) \<and>
           process_pdf L rng F self pdf_path output_path fs c =
             (case save F output_path (output_pages s3) (fs output_path) of
                Saved \<Rightarrow>
                  ((True, length doc),
                   s3\<lparr>save_calls := 1, files := fs(output_path \<mapsto> Document (output_pages s3)),
                      pdf_doc := Closed, output_doc := Closed\<rparr>)
              | SaveFailed left \<Rightarrow>
                  ((False, 0), s3\<lparr>save_calls := 1, files := fs(output_path := left)\<rparr>))"
proof -
  from loop_all_ok [OF assms(2), of "init_state fs c"] obtain s3 where
    l: "page_loop L rng F self doc (length doc) [0..<length doc] (opened (init_state fs c)) = Returned () s3"
    and o: "length (output_pages s3) = length doc" "list_all full_bleed (output_pages s3)"
    and f: "files s3 = fs" "save_calls s3 = 0" "pdf_doc s3 = Opened" "output_doc s3 = Opened"
    and cc: "cb_calls s3 = concat (map (call_of self (length doc)) [0..<length doc])"
    by (auto simp: init_state_def)
  show ?thesis
    using assms(1) l o f cc
    by (intro exI [of _ s3])
       (simp add: process_pdf_def try_block_unfold split: save_result.splits)
qed

text \<open>A page that does not process makes the loop raise, at that page or before it.\<close>

lemma page_body_not_ok:
  assumes "page_num < length doc" "\<not> page_ok L rng F self doc page_num"
  shows "\<exists>st s'. page_body L rng F self doc total_pages page_num s = Raised st s'"
  using assms
  by (auto simp: page_body_def page_ok_def Let_def split: option.splits)

lemma page_loop_not_ok:
  assumes "n \<in> set ns" "n < length doc" "\<not> page_ok L rng F self doc n"
  shows "\<exists>st s'. page_loop L rng F self doc total_pages ns s = Raised st s'"
  using assms
proof (induction ns arbitrary: s)
  case Nil
  then show ?case by simp
next
  case (Cons m ns)
  show ?case
  proof (cases "page_body L rng F self doc total_pages m s")
    case (Raised st s')
    then show ?thesis by simp
  next
    case (Returned u s1)
    then have "m \<noteq> n"
      using page_body_not_ok [of n doc L rng F self total_pages s] Cons.prems by auto
    then have "n \<in> set ns" using Cons.prems by simp
    from Cons.IH [OF this Cons.prems(2,3), of s1] Returned show ?thesis by simp
  qed
qed

lemma process_pdf_page_fails:
  assumes "fitz_open F pdf_path = Some doc" "n < length doc" "\<not> page_ok L rng F self doc n"
  shows "fst (process_pdf L rng F self pdf_path output_path fs c) = (False, 0) \<and>
         files (snd (process_pdf L rng F self pdf_path output_path fs c)) = fs \<and>
         save_calls (snd (process_pdf L rng F self pdf_path output_path fs c)) = 0"
proof -
  let ?r = "page_loop L rng F self doc (length doc) [0..<length doc] (opened (init_state fs c))"
  obtain st s3 where r: "?r = Raised st s3"
    using page_loop_not_ok [of n "[0..<length doc]" doc L rng F self "length doc"
        "opened (init_state fs c)"] assms by auto
  have "files (result_state ?r) = fs \<and> save_calls (result_state ?r) = 0"
    using page_loop_frame [of L rng F self doc "length doc" "[0..<length doc]"
        "opened (init_state fs c)"]
    by (simp add: opened_def init_state_def)
  then show ?thesis using r assms(1) by (simp add: process_pdf_def try_block_unfold)
qed

lemma process_pdf_open_fails:
  assumes "fitz_open F pdf_path = None"
  shows "fst (process_pdf L rng F self pdf_path output_path fs c) = (False, 0) \<and>
         files (snd (process_pdf L rng F self pdf_path output_path fs c)) = fs \<and>
         save_calls (snd (process_pdf L rng F self pdf_path output_path fs c)) = 0"
  using assms by (simp add: process_pdf_def try_block_unfold init_state_def)


lemma call_of_None:
  assumes "progress_callback self = None"
  shows "concat (map (call_of self n) ns) = []"
  using assms by (induction ns) (simp_all add: call_of_def)


subsection \<open>The settings table and the reporter\<close>

lemma handle_numeric:
  assumes "py_int B text = Some v" "(key, lo, hi) \<in> set documented_ranges"
  shows "fst (handle_text_input B db user_id (Some key) text) =
           snd (get_settings (update_settings db user_id [(key, IntV (max lo (min hi v)))]) user_id)"
  using assms by (auto simp: documented_ranges_def handle_text_input_def Let_def)

lemma stored_update:
  assumes "db user_id = Some r" "(key, lo, hi) \<in> set documented_ranges"
  shows "stored (snd (get_settings (update_settings db user_id [(key, IntV c)]) user_id)) user_id key = Some (IntV c)"
  using assms by (auto simp: documented_ranges_def update_settings_def get_settings_def stored_def)

lemma reporter_run_length: "length (reporter_run e l calls) = length calls"
  by (induction calls arbitrary: l) (auto simp: Let_def split: prod.splits)





subsection \<open>The concrete inputs\<close>

lemma try_block_open_fails:
  "fitz_open F pdf_path = None \<Longrightarrow>
   try_block L rng F self pdf_path output_path s = Raised OpenDoc s"
  by (simp add: try_block_unfold)

lemma page_ok_no_callback:
  "page_ok L rng F (self\<lparr>progress_callback := cb\<rparr>) doc n = page_ok L rng F self doc n"
  by (simp add: page_ok_def process_page_no_callback cong: option.case_cong)

lemma ex_pages_ok:
  assumes "n < length ex_doc"
  shows "page_ok ex_lib ex_rngs ex_fitz (ex_self\<lparr>progress_callback := cb\<rparr>) ex_doc n"
proof -
  have "n = 0 \<or> n = 1 \<or> n = 2" using assms by (auto simp: ex_doc_def)
  then show ?thesis
    by (auto simp: page_ok_def ex_doc_def ex_page_def ex_self_def ex_lib_def ex_rng_def
          ex_rngs_def ex_fitz_def process_page_def add_blur_def add_skew_def add_noise_def)
qed

lemma ex_self_callback: "ex_self\<lparr>progress_callback := None\<rparr> = ex_self"
  by (simp add: ex_self_def)

lemma ex_pages_ok_plain:
  "\<forall>n < length ex_doc. page_ok ex_lib ex_rngs ex_fitz ex_self ex_doc n"
proof (intro allI impI)
  fix n assume "n < length ex_doc"
  from ex_pages_ok [OF this, of None] show "page_ok ex_lib ex_rngs ex_fitz ex_self ex_doc n"
    by (simp add: ex_self_callback)
qed

lemma ex_pages_ok_list:
  "list_all (page_ok ex_lib ex_rngs ex_fitz (ex_self\<lparr>progress_callback := cb\<rparr>) ex_doc)
     [0..<length ex_doc]"
  by (auto simp: list_all_iff intro: ex_pages_ok)

text \<open>A resolution of 0, a negative noise scale and a quality of 0 make the first page
  fail in rasterizing, transforming and encoding.\<close>

lemma ex_rasterize_fails:
  "try_block ex_lib ex_rngs ex_fitz ((ex_self :: unit corruptor)\<lparr>dpi := 0\<rparr>) ''in.pdf'' ''out.pdf''
     (init_state Map.empty ()) = Raised Rasterize (opened (init_state Map.empty ()))"
  by (simp add: try_block_unfold ex_fitz_def ex_doc_def ex_page_def ex_self_def upt_rec
        page_body_def)

lemma ex_transform_fails:
  "try_block ex_lib ex_rngs ex_fitz ((ex_self :: unit corruptor)\<lparr>noise_amount := - 1\<rparr>) ''in.pdf''
     ''out.pdf'' (init_state Map.empty ()) = Raised Transform (opened (init_state Map.empty ()))"
  by (simp add: try_block_unfold ex_fitz_def ex_doc_def ex_page_def ex_self_def upt_rec
        page_body_def process_page_def add_blur_def add_skew_def add_noise_def ex_lib_def
        ex_rngs_def ex_rng_def)

lemma ex_encode_fails:
  "try_block ex_lib ex_rngs ex_fitz ((ex_self :: unit corruptor)\<lparr>quality := 0\<rparr>) ''in.pdf''
     ''out.pdf'' (init_state Map.empty ()) = Raised Encode (opened (init_state Map.empty ()))"
  by (simp add: try_block_unfold ex_fitz_def ex_doc_def ex_page_def ex_self_def upt_rec
        page_body_def process_page_def add_blur_def add_skew_def add_noise_def ex_lib_def
        ex_rngs_def ex_rng_def)

lemma page_ok_save:
  "page_ok L rng (F\<lparr>save := g\<rparr>) self doc n = page_ok L rng F self doc n"
  by (simp add: page_ok_def cong: option.case_cong)

lemma full_disk_pages_ok:
  "\<forall>n < length ex_doc. page_ok ex_lib ex_rngs full_disk_fitz ex_self ex_doc n"
  using ex_pages_ok_plain by (simp add: full_disk_fitz_def page_ok_save)

section \<open>The pipeline run\<close>

text \<open>
  Claim C1, as the code has it. For a source document that opens and whose every page
  passes rasterizing, transforming, encoding and inserting, the output document in memory
  has exactly one page per source page, each a full-bleed image page. If the final
  \<^verbatim>\<open>save\<close> returns, \<open>process_pdf\<close> returns \<open>(True, N)\<close> for the \<open>N\<close> pages of the
  source and the file at the output path holds these \<open>N\<close> pages. If the final \<^verbatim>\<open>save\<close>
  raises, \<open>process_pdf\<close> returns \<open>(False, 0)\<close>.
\<close>

theorem process_pdf_pages_preserved:
  assumes "fitz_open F pdf_path = Some doc"
    and "\<forall>n < length doc. page_ok L rng F self doc n"
  shows "let r = process_pdf L rng F self pdf_path output_path fs c;
             out = output_pages (snd r)
         in length out = length doc \<and> list_all full_bleed out \<and>
            (save F output_path out (fs output_path) = Saved \<longrightarrow>
               fst r = (True, length doc) \<and>
               files (snd r) output_path = Some (Document out)) \<and>
            (save F output_path out (fs output_path) \<noteq> Saved \<longrightarrow> fst r = (False, 0))"
proof -
  from process_pdf_all_ok [OF assms, where output_path = output_path and fs = fs and c = c]
  obtain s3 where
    o: "length (output_pages s3) = length doc" "list_all full_bleed (output_pages s3)"
    and p: "process_pdf L rng F self pdf_path output_path fs c =
             (case save F output_path (output_pages s3) (fs output_path) of
                Saved \<Rightarrow>
                  ((True, length doc),
                   s3\<lparr>save_calls := 1, files := fs(output_path \<mapsto> Document (output_pages s3)),
                      pdf_doc := Closed, output_doc := Closed\<rparr>)
              | SaveFailed left \<Rightarrow>
                  ((False, 0), s3\<lparr>save_calls := 1, files := fs(output_path := left)\<rparr>))"
    by blast
  show ?thesis
  proof (cases "save F output_path (output_pages s3) (fs output_path)")
    case Saved
    then show ?thesis using o p by (simp add: Let_def)
  next
    case (SaveFailed left)
    then show ?thesis using o p by (simp add: Let_def)
  qed
qed

theorem process_pdf_pages_preserved_witness:
  "fitz_open ex_fitz ''in.pdf'' = Some ex_doc \<and>
   list_all (page_ok ex_lib ex_rngs ex_fitz (ex_self :: unit corruptor) ex_doc) [0..<length ex_doc] \<and>
   fst (process_pdf ex_lib ex_rngs ex_fitz (ex_self :: unit corruptor) ''in.pdf'' ''out.pdf''
          Map.empty ()) = (True, 3) \<and>
   length (output_pages (snd (process_pdf ex_lib ex_rngs ex_fitz (ex_self :: unit corruptor)
          ''in.pdf'' ''out.pdf'' Map.empty ()))) = 3 \<and>
   files (snd (process_pdf ex_lib ex_rngs ex_fitz (ex_self :: unit corruptor)
          ''in.pdf'' ''out.pdf'' Map.empty ())) ''out.pdf'' =
     Some (Document (output_pages (snd (process_pdf ex_lib ex_rngs ex_fitz
          (ex_self :: unit corruptor) ''in.pdf'' ''out.pdf'' Map.empty ()))))"
proof -
  have a: "fitz_open ex_fitz ''in.pdf'' = Some ex_doc" by (simp add: ex_fitz_def)
  have b: "\<forall>n < length ex_doc. page_ok ex_lib ex_rngs ex_fitz (ex_self :: unit corruptor) ex_doc n"
    by (rule ex_pages_ok_plain)
  have l: "list_all (page_ok ex_lib ex_rngs ex_fitz (ex_self :: unit corruptor) ex_doc) [0..<length ex_doc]"
    using b by (simp add: list_all_iff)
  have n: "length ex_doc = 3" by (simp add: ex_doc_def)
  have s: "\<And>out before. length out = 3 \<Longrightarrow> save ex_fitz ''out.pdf'' out before = Saved"
    by (auto simp: ex_fitz_def)
  from process_pdf_pages_preserved [OF a b, where output_path = "''out.pdf''" and fs = Map.empty and c = "()"]
  show ?thesis using a l n s by (simp add: Let_def)
qed

text \<open>
  Claim C1 as stated asks only that the document opens and every page processes. The
  three-page document does both, but its output path lies in a directory that does not
  exist: \<^verbatim>\<open>save\<close> raises and \<open>process_pdf\<close> returns \<open>(False, 0)\<close>.
\<close>

theorem process_pdf_save_failure_counterexample:
  "fitz_open ex_fitz ''in.pdf'' = Some ex_doc \<and>
   list_all (page_ok ex_lib ex_rngs ex_fitz (ex_self :: unit corruptor) ex_doc) [0..<length ex_doc] \<and>
   fst (process_pdf ex_lib ex_rngs ex_fitz (ex_self :: unit corruptor) ''in.pdf''
          ''/missing/out.pdf'' Map.empty ()) = (False, 0)"
proof -
  have a: "fitz_open ex_fitz ''in.pdf'' = Some ex_doc" by (simp add: ex_fitz_def)
  have b: "\<forall>n < length ex_doc. page_ok ex_lib ex_rngs ex_fitz (ex_self :: unit corruptor) ex_doc n"
    by (rule ex_pages_ok_plain)
  have l: "list_all (page_ok ex_lib ex_rngs ex_fitz (ex_self :: unit corruptor) ex_doc) [0..<length ex_doc]"
    using b by (simp add: list_all_iff)
  have s: "\<And>out before. save ex_fitz ''/missing/out.pdf'' out before = SaveFailed before"
    by (simp add: ex_fitz_def)
  from process_pdf_all_ok [OF a b, where output_path = "''/missing/out.pdf''" and fs = Map.empty and c = "()"]
  show ?thesis using a l s by auto
qed

text \<open>
  Claim C2 asks that both document handles are closed on every exit path. The code closes
  them on the path that returns \<open>True\<close> only. Here the three-page document is processed
  and the final \<^verbatim>\<open>save\<close> raises: \<open>process_pdf\<close> returns \<open>(False, 0)\<close> and both handles
  are still open.
\<close>

theorem process_pdf_leaves_handles_open:
  "fst (process_pdf ex_lib ex_rngs ex_fitz (ex_self :: unit corruptor) ''in.pdf''
          ''/missing/out.pdf'' Map.empty ()) = (False, 0) \<and>
   pdf_doc (snd (process_pdf ex_lib ex_rngs ex_fitz (ex_self :: unit corruptor) ''in.pdf''
          ''/missing/out.pdf'' Map.empty ())) = Opened \<and>
   output_doc (snd (process_pdf ex_lib ex_rngs ex_fitz (ex_self :: unit corruptor) ''in.pdf''
          ''/missing/out.pdf'' Map.empty ())) = Opened"
proof -
  have a: "fitz_open ex_fitz ''in.pdf'' = Some ex_doc" by (simp add: ex_fitz_def)
  have b: "\<forall>n < length ex_doc. page_ok ex_lib ex_rngs ex_fitz (ex_self :: unit corruptor) ex_doc n"
    by (rule ex_pages_ok_plain)
  have s: "\<And>out before. save ex_fitz ''/missing/out.pdf'' out before = SaveFailed before"
    by (simp add: ex_fitz_def)
  from process_pdf_all_ok [OF a b, where output_path = "''/missing/out.pdf''" and fs = Map.empty and c = "()"]
  show ?thesis using s by auto
qed

text \<open>
  Claim C3, as the code has it. A run in which a stage raises returns \<open>(False, 0)\<close>: when
  the source does not open; when some page fails in rasterizing, transforming, encoding or
  inserting; when the final \<^verbatim>\<open>save\<close> raises; and whatever the stage the \<^verbatim>\<open>try\<close> block
  raises at. When the stage is not the final one, \<^verbatim>\<open>save\<close> has not been called and no
  file has changed, so the output path has not been written. When the final \<^verbatim>\<open>save\<close>
  raises, the output path holds what the failed call left there and every other file is as
  it was.
\<close>

theorem process_pdf_stage_failure:
  "let r = process_pdf L rng F self pdf_path output_path fs c
   in (fitz_open F pdf_path = None \<longrightarrow>
         fst r = (False, 0) \<and> files (snd r) = fs \<and> save_calls (snd r) = 0) \<and>
      (fitz_open F pdf_path = Some doc \<and> n < length doc \<and> \<not> page_ok L rng F self doc n \<longrightarrow>
         fst r = (False, 0) \<and> files (snd r) = fs \<and> save_calls (snd r) = 0) \<and>
      (fitz_open F pdf_path = Some doc \<and> (\<forall>n < length doc. page_ok L rng F self doc n) \<and>
       save F output_path (output_pages (snd r)) (fs output_path) = SaveFailed left \<longrightarrow>
         fst r = (False, 0) \<and> files (snd r) = fs(output_path := left)) \<and>
      (raised_at (try_block L rng F self pdf_path output_path (init_state fs c)) = Some st \<longrightarrow>
         fst r = (False, 0) \<and>
         (st \<noteq> Finalize \<longrightarrow> files (snd r) = fs \<and> save_calls (snd r) = 0))"
proof -
  let ?r = "process_pdf L rng F self pdf_path output_path fs c"
  have 1: "fst ?r = (False, 0) \<and> files (snd ?r) = fs \<and> save_calls (snd ?r) = 0"
    if "fitz_open F pdf_path = None"
    using that by (rule process_pdf_open_fails)
  have 2: "fst ?r = (False, 0) \<and> files (snd ?r) = fs \<and> save_calls (snd ?r) = 0"
    if "fitz_open F pdf_path = Some doc" "n < length doc" "\<not> page_ok L rng F self doc n"
    using that by (rule process_pdf_page_fails)
  have 3: "fst ?r = (False, 0) \<and> files (snd ?r) = fs(output_path := left)"
    if a: "fitz_open F pdf_path = Some doc" and b: "\<forall>n < length doc. page_ok L rng F self doc n"
      and s: "save F output_path (output_pages (snd ?r)) (fs output_path) = SaveFailed left"
  proof -
    from process_pdf_all_ok [OF a b, where output_path = output_path and fs = fs and c = c]
    obtain s3 where p: "?r =
             (case save F output_path (output_pages s3) (fs output_path) of
                Saved \<Rightarrow>
                  ((True, length doc),
                   s3\<lparr>save_calls := 1, files := fs(output_path \<mapsto> Document (output_pages s3)),
                      pdf_doc := Closed, output_doc := Closed\<rparr>)
              | SaveFailed left \<Rightarrow>
                  ((False, 0), s3\<lparr>save_calls := 1, files := fs(output_path := left)\<rparr>))"
      by blast
    show ?thesis
    proof (cases "save F output_path (output_pages s3) (fs output_path)")
      case Saved
      then show ?thesis using p s by simp
    next
      case (SaveFailed left')
      then show ?thesis using p s by simp
    qed
  qed
  have 4: "fst ?r = (False, 0) \<and> (st \<noteq> Finalize \<longrightarrow> files (snd ?r) = fs \<and> save_calls (snd ?r) = 0)"
    if "raised_at (try_block L rng F self pdf_path output_path (init_state fs c)) = Some st"
  proof -
    from that obtain s' where
      t: "try_block L rng F self pdf_path output_path (init_state fs c) = Raised st s'"
      by (cases "try_block L rng F self pdf_path output_path (init_state fs c)") auto
    from try_block_Raised [OF t] t show ?thesis
      by (simp add: process_pdf_def init_state_def)
  qed
  show ?thesis unfolding Let_def using 1 2 3 4 by blast
qed

text \<open>Scenario C of the specification (a path that holds no document), a document whose
  first page cannot be rendered, and a target that cannot be written.\<close>

theorem process_pdf_stage_failure_witness:
  "fitz_open ex_fitz ''garbage.bin'' = None \<and>
   raised_at (try_block ex_lib ex_rngs ex_fitz (ex_self :: unit corruptor) ''garbage.bin''
     ''out.pdf'' (init_state Map.empty ())) = Some OpenDoc \<and>
   fst (process_pdf ex_lib ex_rngs ex_fitz (ex_self :: unit corruptor) ''garbage.bin'' ''out.pdf''
          Map.empty ()) = (False, 0) \<and>
   files (snd (process_pdf ex_lib ex_rngs ex_fitz (ex_self :: unit corruptor) ''garbage.bin''
          ''out.pdf'' Map.empty ())) = Map.empty \<and>
   fitz_open ex_fitz ''in.pdf'' = Some ex_doc \<and> 0 < length ex_doc \<and>
   \<not> page_ok ex_lib ex_rngs ex_fitz ((ex_self :: unit corruptor)\<lparr>dpi := 0\<rparr>) ex_doc 0 \<and>
   fst (process_pdf ex_lib ex_rngs ex_fitz ((ex_self :: unit corruptor)\<lparr>dpi := 0\<rparr>) ''in.pdf''
          ''out.pdf'' Map.empty ()) = (False, 0) \<and>
   files (snd (process_pdf ex_lib ex_rngs ex_fitz ((ex_self :: unit corruptor)\<lparr>dpi := 0\<rparr>)
          ''in.pdf'' ''out.pdf'' Map.empty ())) = Map.empty \<and>
   save_calls (snd (process_pdf ex_lib ex_rngs ex_fitz ((ex_self :: unit corruptor)\<lparr>dpi := 0\<rparr>)
          ''in.pdf'' ''out.pdf'' Map.empty ())) = 0 \<and>
   list_all (page_ok ex_lib ex_rngs ex_fitz (ex_self :: unit corruptor) ex_doc) [0..<length ex_doc] \<and>
   fst (process_pdf ex_lib ex_rngs ex_fitz (ex_self :: unit corruptor) ''in.pdf''
          ''/missing/out.pdf'' Map.empty ()) = (False, 0) \<and>
   files (snd (process_pdf ex_lib ex_rngs ex_fitz (ex_self :: unit corruptor) ''in.pdf''
          ''/missing/out.pdf'' Map.empty ())) = Map.empty"
proof -
  have g: "fitz_open ex_fitz ''garbage.bin'' = None" by (simp add: ex_fitz_def)
  have gr: "raised_at (try_block ex_lib ex_rngs ex_fitz (ex_self :: unit corruptor) ''garbage.bin''
     ''out.pdf'' (init_state Map.empty ())) = Some OpenDoc"
    using g by (simp add: try_block_unfold)
  have a: "fitz_open ex_fitz ''in.pdf'' = Some ex_doc" by (simp add: ex_fitz_def)
  have p: "0 < length ex_doc" by (simp add: ex_doc_def)
  have nok: "\<not> page_ok ex_lib ex_rngs ex_fitz ((ex_self :: unit corruptor)\<lparr>dpi := 0\<rparr>) ex_doc 0"
    by (simp add: page_ok_def ex_doc_def ex_page_def ex_self_def)
  have b: "\<forall>n < length ex_doc. page_ok ex_lib ex_rngs ex_fitz (ex_self :: unit corruptor) ex_doc n"
    by (rule ex_pages_ok_plain)
  have l: "list_all (page_ok ex_lib ex_rngs ex_fitz (ex_self :: unit corruptor) ex_doc) [0..<length ex_doc]"
    using b by (simp add: list_all_iff)
  have s: "\<And>out. save ex_fitz ''/missing/out.pdf'' out (Map.empty ''/missing/out.pdf'') =
             SaveFailed None"
    by (simp add: ex_fitz_def)
  have e: "Map.empty(''/missing/out.pdf'' := None) = (Map.empty :: string \<rightharpoonup> disk_file)"
    by simp
  have 1: "fst (process_pdf ex_lib ex_rngs ex_fitz (ex_self :: unit corruptor) ''garbage.bin''
          ''out.pdf'' Map.empty ()) = (False, 0) \<and>
     files (snd (process_pdf ex_lib ex_rngs ex_fitz (ex_self :: unit corruptor) ''garbage.bin''
          ''out.pdf'' Map.empty ())) = Map.empty"
    using process_pdf_stage_failure [where L = ex_lib and rng = ex_rngs and F = ex_fitz
        and self = "ex_self :: unit corruptor" and pdf_path = "''garbage.bin''"
        and output_path = "''out.pdf''" and fs = Map.empty and c = "()" and st = OpenDoc] g gr
    unfolding Let_def by blast
  have 2: "fst (process_pdf ex_lib ex_rngs ex_fitz ((ex_self :: unit corruptor)\<lparr>dpi := 0\<rparr>)
          ''in.pdf'' ''out.pdf'' Map.empty ()) = (False, 0) \<and>
     files (snd (process_pdf ex_lib ex_rngs ex_fitz ((ex_self :: unit corruptor)\<lparr>dpi := 0\<rparr>)
          ''in.pdf'' ''out.pdf'' Map.empty ())) = Map.empty \<and>
     save_calls (snd (process_pdf ex_lib ex_rngs ex_fitz ((ex_self :: unit corruptor)\<lparr>dpi := 0\<rparr>)
          ''in.pdf'' ''out.pdf'' Map.empty ())) = 0"
    using process_pdf_stage_failure [where L = ex_lib and rng = ex_rngs and F = ex_fitz
        and self = "(ex_self :: unit corruptor)\<lparr>dpi := 0\<rparr>" and pdf_path = "''in.pdf''"
        and output_path = "''out.pdf''" and fs = Map.empty and c = "()" and doc = ex_doc
        and n = 0] a p nok
    unfolding Let_def by blast
  have 3: "fst (process_pdf ex_lib ex_rngs ex_fitz (ex_self :: unit corruptor) ''in.pdf''
          ''/missing/out.pdf'' Map.empty ()) = (False, 0) \<and>
     files (snd (process_pdf ex_lib ex_rngs ex_fitz (ex_self :: unit corruptor) ''in.pdf''
          ''/missing/out.pdf'' Map.empty ())) = Map.empty(''/missing/out.pdf'' := None)"
    using process_pdf_stage_failure [where L = ex_lib and rng = ex_rngs and F = ex_fitz
        and self = "ex_self :: unit corruptor" and pdf_path = "''in.pdf''"
        and output_path = "''/missing/out.pdf''" and fs = Map.empty and c = "()" and doc = ex_doc
        and left = None] a b s
    unfolding Let_def by blast
  show ?thesis using g gr a p nok l 1 2 3 e by simp
qed

text \<open>
  Claim C3 as stated says that the output path is never written in a run that fails. On a
  full disk the three pages are processed, \<^verbatim>\<open>save\<close> creates the target, writes a part
  of the document and raises: the \<^verbatim>\<open>try\<close> block raises in its final stage,
  \<open>process_pdf\<close> returns \<open>(False, 0)\<close>, and the output path, empty before the run, holds a
  truncated file.
\<close>

theorem failed_save_leaves_file_counterexample:
  "raised_at (try_block ex_lib ex_rngs full_disk_fitz (ex_self :: unit corruptor) ''in.pdf''
     ''out.pdf'' (init_state Map.empty ())) = Some Finalize \<and>
   fst (process_pdf ex_lib ex_rngs full_disk_fitz (ex_self :: unit corruptor) ''in.pdf''
          ''out.pdf'' Map.empty ()) = (False, 0) \<and>
   (Map.empty :: string \<rightharpoonup> disk_file) ''out.pdf'' = None \<and>
   files (snd (process_pdf ex_lib ex_rngs full_disk_fitz (ex_self :: unit corruptor) ''in.pdf''
          ''out.pdf'' Map.empty ())) ''out.pdf'' = Some Truncated"
proof -
  have a: "fitz_open full_disk_fitz ''in.pdf'' = Some ex_doc"
    by (simp add: full_disk_fitz_def ex_fitz_def)
  have b: "\<forall>n < length ex_doc. page_ok ex_lib ex_rngs full_disk_fitz (ex_self :: unit corruptor) ex_doc n"
    by (rule full_disk_pages_ok)
  have s: "\<And>out before. save full_disk_fitz ''out.pdf'' out before = SaveFailed (Some Truncated)"
    by (simp add: full_disk_fitz_def)
  from loop_all_ok [OF b, of "init_state Map.empty ()"] obtain s3 where
    l: "page_loop ex_lib ex_rngs full_disk_fitz (ex_self :: unit corruptor) ex_doc (length ex_doc)
          [0..<length ex_doc] (opened (init_state Map.empty ())) = Returned () s3" by blast
  have t: "raised_at (try_block ex_lib ex_rngs full_disk_fitz (ex_self :: unit corruptor) ''in.pdf''
     ''out.pdf'' (init_state Map.empty ())) = Some Finalize"
    using a l s by (simp add: try_block_unfold)
  from process_pdf_all_ok [OF a b, where output_path = "''out.pdf''" and fs = Map.empty and c = "()"]
  show ?thesis using s t by auto
qed

section \<open>Progress reporting by the pipeline\<close>



text \<open>
  Claim C5. What \<open>process_pdf\<close> returns and what it leaves on disk are the same with any
  callback as with none, whether the callback raises or not: its exceptions never leave
  the loop. So a document that opens, whose pages all process and whose output is saved
  gives \<open>(True, N)\<close> with every callback, one that raises in every call included.
\<close>

theorem callback_exceptions_swallowed:
  "fst (process_pdf L rng F (self\<lparr>progress_callback := Some cb\<rparr>) pdf_path output_path fs c) =
     fst (process_pdf L rng F (self\<lparr>progress_callback := None\<rparr>) pdf_path output_path fs c) \<and>
   files (snd (process_pdf L rng F (self\<lparr>progress_callback := Some cb\<rparr>) pdf_path output_path fs c)) =
     files (snd (process_pdf L rng F (self\<lparr>progress_callback := None\<rparr>) pdf_path output_path fs c)) \<and>
   (fitz_open F pdf_path = Some doc \<and> (\<forall>n < length doc. page_ok L rng F self doc n) \<and>
    save F output_path
      (output_pages (snd (process_pdf L rng F (self\<lparr>progress_callback := Some cb\<rparr>)
         pdf_path output_path fs c))) (fs output_path) = Saved \<longrightarrow>
    fst (process_pdf L rng F (self\<lparr>progress_callback := Some cb\<rparr>) pdf_path output_path fs c) =
      (True, length doc))"
proof -
  let ?self = "self\<lparr>progress_callback := Some cb\<rparr>"
  have v: "fst (process_pdf L rng F ?self pdf_path output_path fs c) =
     fst (process_pdf L rng F (self\<lparr>progress_callback := None\<rparr>) pdf_path output_path fs c) \<and>
     view (snd (process_pdf L rng F ?self pdf_path output_path fs c)) =
     view (snd (process_pdf L rng F (self\<lparr>progress_callback := None\<rparr>) pdf_path output_path fs c))"
    by (rule process_pdf_view)
  have ok: "fst (process_pdf L rng F ?self pdf_path output_path fs c) = (True, length doc)"
    if a: "fitz_open F pdf_path = Some doc" and b: "\<forall>n < length doc. page_ok L rng F self doc n"
      and s: "save F output_path
                (output_pages (snd (process_pdf L rng F ?self pdf_path output_path fs c)))
                (fs output_path) = Saved"
  proof -
    have b': "\<forall>n < length doc. page_ok L rng F ?self doc n"
      using b by (simp add: page_ok_no_callback)
    from process_pdf_all_ok [OF a b', where output_path = output_path and fs = fs and c = c]
    obtain s3 where p: "process_pdf L rng F ?self pdf_path output_path fs c =
             (case save F output_path (output_pages s3) (fs output_path) of
                Saved \<Rightarrow>
                  ((True, length doc),
                   s3\<lparr>save_calls := 1, files := fs(output_path \<mapsto> Document (output_pages s3)),
                      pdf_doc := Closed, output_doc := Closed\<rparr>)
              | SaveFailed left \<Rightarrow>
                  ((False, 0), s3\<lparr>save_calls := 1, files := fs(output_path := left)\<rparr>))"
      by blast
    show ?thesis
    proof (cases "save F output_path (output_pages s3) (fs output_path)")
      case Saved
      then show ?thesis using p by simp
    next
      case (SaveFailed left)
      then show ?thesis using p s by simp
    qed
  qed
  show ?thesis using v ok by (simp add: view_def)
qed

text \<open>Scenario D of the specification: three pages and a callback that always raises.\<close>

theorem callback_exceptions_swallowed_witness:
  "fitz_open ex_fitz ''in.pdf'' = Some ex_doc \<and>
   list_all (page_ok ex_lib ex_rngs ex_fitz (ex_self :: nat corruptor) ex_doc) [0..<length ex_doc] \<and>
   snd (throwing 0 33 1 3) \<and>
   fst (process_pdf ex_lib ex_rngs ex_fitz (ex_self\<lparr>progress_callback := Some throwing\<rparr>)
          ''in.pdf'' ''out.pdf'' Map.empty 0) = (True, 3)"
proof -
  let ?r = "process_pdf ex_lib ex_rngs ex_fitz (ex_self\<lparr>progress_callback := Some throwing\<rparr>)
          ''in.pdf'' ''out.pdf'' Map.empty 0"
  have a: "fitz_open ex_fitz ''in.pdf'' = Some ex_doc" by (simp add: ex_fitz_def)
  have n: "length ex_doc = 3" by (simp add: ex_doc_def)
  have b: "\<forall>n < length ex_doc. page_ok ex_lib ex_rngs ex_fitz (ex_self :: nat corruptor) ex_doc n"
    by (rule ex_pages_ok_plain)
  have l: "list_all (page_ok ex_lib ex_rngs ex_fitz (ex_self :: nat corruptor) ex_doc) [0..<length ex_doc]"
    using b by (simp add: list_all_iff)
  have b': "\<forall>n < length ex_doc. page_ok ex_lib ex_rngs ex_fitz (ex_self\<lparr>progress_callback := Some throwing\<rparr>) ex_doc n"
    using ex_pages_ok by blast
  have "length (output_pages (snd ?r)) = 3"
  proof -
    from process_pdf_all_ok [OF a b', where output_path = "''out.pdf''" and fs = Map.empty and c = 0]
    obtain s3 where o: "length (output_pages s3) = length ex_doc"
      and p: "?r =
             (case save ex_fitz ''out.pdf'' (output_pages s3) (Map.empty ''out.pdf'') of
                Saved \<Rightarrow>
                  ((True, length ex_doc),
                   s3\<lparr>save_calls := 1,
                      files := Map.empty(''out.pdf'' \<mapsto> Document (output_pages s3)),
                      pdf_doc := Closed, output_doc := Closed\<rparr>)
              | SaveFailed left \<Rightarrow>
                  ((False, 0), s3\<lparr>save_calls := 1, files := Map.empty(''out.pdf'' := left)\<rparr>))"
      by blast
    show ?thesis
      by (cases "save ex_fitz ''out.pdf'' (output_pages s3) (Map.empty ''out.pdf'')")
         (use o p n in simp_all)
  qed
  then have s: "save ex_fitz ''out.pdf'' (output_pages (snd ?r)) (Map.empty ''out.pdf'') = Saved"
    by (auto simp: ex_fitz_def)
  have t: "snd (throwing 0 33 1 3)" by (simp add: throwing_def)
  from callback_exceptions_swallowed [where L = ex_lib and rng = ex_rngs and F = ex_fitz
      and self = ex_self and cb = throwing and pdf_path = "''in.pdf''"
      and output_path = "''out.pdf''" and fs = Map.empty and c = 0 and doc = ex_doc]
  have "fst ?r = (True, length ex_doc)" using a b s by blast
  then show ?thesis using a l t n by simp
qed

section \<open>A document without pages\<close>

text \<open>
  Claim C10, as the code has it. For a source document that opens and has no pages, the
  loop body never runs: the callback is never called (so no call with percentage 100 is
  made) and the output document stays empty. If the final \<^verbatim>\<open>save\<close> of the empty
  document returns, \<open>process_pdf\<close> returns \<open>(True, 0)\<close> and the output path holds an empty
  document. If it raises, \<open>process_pdf\<close> returns \<open>(False, 0)\<close> and the output path holds
  what the failed call left there; when the call raises before it touches the target, as
  a refusal of an empty document does, no file has changed.
\<close>

theorem process_pdf_empty_document:
  assumes "fitz_open F pdf_path = Some []"
  shows "let r = process_pdf L rng F self pdf_path output_path fs c
         in cb_calls (snd r) = [] \<and> output_pages (snd r) = [] \<and>
            (save F output_path [] (fs output_path) = Saved \<longrightarrow>
               fst r = (True, 0) \<and> files (snd r) = fs(output_path \<mapsto> Document [])) \<and>
            (save F output_path [] (fs output_path) = SaveFailed left \<longrightarrow>
               fst r = (False, 0) \<and> files (snd r) = fs(output_path := left)) \<and>
            (save F output_path [] (fs output_path) = SaveFailed (fs output_path) \<longrightarrow>
               fst r = (False, 0) \<and> files (snd r) = fs)"
proof (cases "save F output_path [] (fs output_path)")
  case Saved
  then show ?thesis
    using assms
    by (simp add: process_pdf_def try_block_unfold opened_def init_state_def Let_def)
next
  case (SaveFailed left')
  then show ?thesis
    using assms
    by (simp add: process_pdf_def try_block_unfold opened_def init_state_def Let_def)
qed

theorem process_pdf_empty_document_witness:
  "fitz_open lenient_fitz ''empty.pdf'' = Some [] \<and>
   save lenient_fitz ''out.pdf'' [] (Map.empty ''out.pdf'') = Saved \<and>
   fst (process_pdf ex_lib ex_rngs lenient_fitz (ex_self\<lparr>progress_callback := Some counting\<rparr>)
          ''empty.pdf'' ''out.pdf'' Map.empty 0) = (True, 0) \<and>
   cb_calls (snd (process_pdf ex_lib ex_rngs lenient_fitz
          (ex_self\<lparr>progress_callback := Some counting\<rparr>) ''empty.pdf'' ''out.pdf'' Map.empty 0)) = [] \<and>
   files (snd (process_pdf ex_lib ex_rngs lenient_fitz
          (ex_self\<lparr>progress_callback := Some counting\<rparr>) ''empty.pdf'' ''out.pdf'' Map.empty 0))
     ''out.pdf'' = Some (Document []) \<and>
   fitz_open ex_fitz ''empty.pdf'' = Some [] \<and>
   save ex_fitz ''out.pdf'' [] (Map.empty ''out.pdf'') = SaveFailed (Map.empty ''out.pdf'') \<and>
   fst (process_pdf ex_lib ex_rngs ex_fitz (ex_self\<lparr>progress_callback := Some counting\<rparr>)
          ''empty.pdf'' ''out.pdf'' Map.empty 0) = (False, 0) \<and>
   files (snd (process_pdf ex_lib ex_rngs ex_fitz
          (ex_self\<lparr>progress_callback := Some counting\<rparr>) ''empty.pdf'' ''out.pdf'' Map.empty 0)) =
     Map.empty"
proof -
  have a: "fitz_open lenient_fitz ''empty.pdf'' = Some []"
    by (simp add: lenient_fitz_def ex_fitz_def)
  have s: "save lenient_fitz ''out.pdf'' [] (Map.empty ''out.pdf'') = Saved"
    by (simp add: lenient_fitz_def)
  have a': "fitz_open ex_fitz ''empty.pdf'' = Some []" by (simp add: ex_fitz_def)
  have s': "save ex_fitz ''out.pdf'' [] (Map.empty ''out.pdf'') = SaveFailed (Map.empty ''out.pdf'')"
    by (simp add: ex_fitz_def)
  have 1: "fst (process_pdf ex_lib ex_rngs lenient_fitz (ex_self\<lparr>progress_callback := Some counting\<rparr>)
          ''empty.pdf'' ''out.pdf'' Map.empty 0) = (True, 0) \<and>
     cb_calls (snd (process_pdf ex_lib ex_rngs lenient_fitz
          (ex_self\<lparr>progress_callback := Some counting\<rparr>) ''empty.pdf'' ''out.pdf'' Map.empty 0)) = [] \<and>
     files (snd (process_pdf ex_lib ex_rngs lenient_fitz
          (ex_self\<lparr>progress_callback := Some counting\<rparr>) ''empty.pdf'' ''out.pdf'' Map.empty 0))
       ''out.pdf'' = Some (Document [])"
    using process_pdf_empty_document [OF a, where output_path = "''out.pdf''" and L = ex_lib
      and rng = ex_rngs and self = "ex_self\<lparr>progress_callback := Some counting\<rparr>"
      and fs = Map.empty and c = 0] s
    by (simp add: Let_def)
  have 2: "fst (process_pdf ex_lib ex_rngs ex_fitz (ex_self\<lparr>progress_callback := Some counting\<rparr>)
          ''empty.pdf'' ''out.pdf'' Map.empty 0) = (False, 0) \<and>
     files (snd (process_pdf ex_lib ex_rngs ex_fitz
          (ex_self\<lparr>progress_callback := Some counting\<rparr>) ''empty.pdf'' ''out.pdf'' Map.empty 0)) =
       Map.empty"
    using process_pdf_empty_document [OF a', where output_path = "''out.pdf''" and L = ex_lib
      and rng = ex_rngs and self = "ex_self\<lparr>progress_callback := Some counting\<rparr>"
      and fs = Map.empty and c = 0 and left = None] s'
    by (simp add: Let_def)
  show ?thesis using a s a' s' 1 2 by blast
qed

text \<open>
  Claim C10 as stated promises success for every empty document that opens. With a
  library whose \<^verbatim>\<open>save\<close> refuses a document without pages, the run returns
  \<open>(False, 0)\<close> and the output path stays unwritten.
\<close>

theorem empty_document_counterexample:
  "fitz_open ex_fitz ''empty.pdf'' = Some [] \<and>
   fst (process_pdf ex_lib ex_rngs ex_fitz (ex_self :: unit corruptor) ''empty.pdf'' ''out.pdf''
          Map.empty ()) = (False, 0) \<and>
   files (snd (process_pdf ex_lib ex_rngs ex_fitz (ex_self :: unit corruptor) ''empty.pdf''
          ''out.pdf'' Map.empty ())) ''out.pdf'' = None"
  by (simp add: process_pdf_def try_block_unfold opened_def init_state_def ex_fitz_def)

section \<open>The rate limit of the reporter\<close>



section \<open>The transformation chain\<close>

text \<open>
  Claim C7, as the code has it. \<open>process_page\<close> is blur, then skew, then noise, each
  stage working on the output of the one before and an exception of a stage ending the
  chain. A stage whose parameter is 0 returns its input unchanged. A stage whose parameter
  is not 0 is the library transform applied to its input: the Gaussian blur of radius
  \<open>max 1 blur_amount\<close>, the rotation about the centre on the same canvas, the clipped and
  truncated sum of samples and noise. Nothing is said about whether that output differs
  from the input.
\<close>

theorem transform_chain_order:
  "process_page L rng self img =
     Option.bind (Option.bind (add_blur L self img) (add_skew L self)) (add_noise rng self) \<and>
   (blur_amount self = 0 \<longrightarrow> add_blur L self img = Some img) \<and>
   (skew_amount self = 0 \<longrightarrow> add_skew L self img = Some img) \<and>
   (noise_amount self = 0 \<longrightarrow> add_noise rng self img = Some img) \<and>
   (blur_amount self \<noteq> 0 \<longrightarrow>
      add_blur L self img = GaussianBlur L (max 1 (blur_amount self)) img) \<and>
   (skew_amount self \<noteq> 0 \<longrightarrow>
      add_skew L self img =
        warpAffine L (width img div 2, height img div 2) (skew_amount self)
          (width img, height img) img) \<and>
   (noise_amount self \<noteq> 0 \<longrightarrow>
      add_noise rng self img =
        map_option
          (\<lambda>noise. img\<lparr>samples := map (\<lambda>i. astype_uint8 (noisy_float noise img i))
                                       [0..<length (samples img)]\<rparr>)
          (rng (noise_amount self)))"
proof -
  have "process_page L rng self img =
     Option.bind (Option.bind (add_blur L self img) (add_skew L self)) (add_noise rng self)"
    by (cases "add_blur L self img"; cases "add_skew L self (the (add_blur L self img))")
       (simp_all add: process_page_def)
  moreover have "noise_amount self \<noteq> 0 \<longrightarrow>
      add_noise rng self img =
        map_option
          (\<lambda>noise. img\<lparr>samples := map (\<lambda>i. astype_uint8 (noisy_float noise img i))
                                       [0..<length (samples img)]\<rparr>)
          (rng (noise_amount self))"
    by (cases "rng (noise_amount self)") (simp_all add: add_noise_def)
  ultimately show ?thesis
    by (simp add: add_blur_def add_skew_def add_noise_def Let_def)
qed

text \<open>With every parameter 0 the chain is the identity (scenario A); with none 0 each
  stage is the library call.\<close>

theorem transform_chain_order_witness:
  "blur_amount (plain_self :: unit corruptor) = 0 \<and> skew_amount (plain_self :: unit corruptor) = 0 \<and>
   noise_amount (plain_self :: unit corruptor) = 0 \<and>
   process_page ex_lib ex_rng (plain_self :: unit corruptor) black_pixel = Some black_pixel \<and>
   blur_amount (ex_self :: unit corruptor) \<noteq> 0 \<and> skew_amount (ex_self :: unit corruptor) \<noteq> 0 \<and>
   noise_amount (ex_self :: unit corruptor) \<noteq> 0 \<and>
   add_blur ex_lib (ex_self :: unit corruptor) black_pixel = GaussianBlur ex_lib 5 black_pixel \<and>
   add_skew ex_lib (ex_self :: unit corruptor) black_pixel =
     warpAffine ex_lib (0, 0) 10 (1, 1) black_pixel"
proof -
  have z: "blur_amount (plain_self :: unit corruptor) = 0 \<and>
    skew_amount (plain_self :: unit corruptor) = 0 \<and> noise_amount (plain_self :: unit corruptor) = 0"
    by (simp add: plain_self_def)
  have nz: "blur_amount (ex_self :: unit corruptor) = 5 \<and>
    skew_amount (ex_self :: unit corruptor) = 10 \<and> noise_amount (ex_self :: unit corruptor) = 20"
    by (simp add: ex_self_def)
  have d: "width black_pixel = 1 \<and> height black_pixel = 1" by (simp add: black_pixel_def)
  from transform_chain_order [of ex_lib ex_rng "plain_self :: unit corruptor" black_pixel] z
  have 1: "process_page ex_lib ex_rng (plain_self :: unit corruptor) black_pixel = Some black_pixel"
    by simp
  from transform_chain_order [of ex_lib ex_rng "ex_self :: unit corruptor" black_pixel] nz d
  have 2: "add_blur ex_lib (ex_self :: unit corruptor) black_pixel = GaussianBlur ex_lib 5 black_pixel"
    and 3: "add_skew ex_lib (ex_self :: unit corruptor) black_pixel =
     warpAffine ex_lib (0, 0) 10 (1, 1) black_pixel"
    by simp_all
  show ?thesis using z nz 1 2 3 by simp
qed

text \<open>
  Claim C7 as stated says that a stage is the identity exactly when its parameter is 0.
  With noise 20 and every draw \<open>-3\<close>, a black pixel comes out bit-identical: each sum is
  negative and is clipped back to 0.
\<close>

theorem noise_identity_counterexample:
  "noise_amount (ex_self :: unit corruptor) \<noteq> 0 \<and>
   add_noise ex_rng (ex_self :: unit corruptor) black_pixel = Some black_pixel"
proof -
  have f: "fl64 (- 3) = - 3" by code_simp
  show ?thesis
    by (simp add: ex_self_def ex_rng_def black_pixel_def add_noise_def noisy_float_def
          np_clip_def astype_uint8_def float_to_int_def f upt_rec)
qed

text \<open>
  Claim C8. When the noise parameter is positive and the noise stage returns, then for
  whatever draws the generator gave, every entry of the clipped array lies between 0 and
  255, the output has as many samples as the input, and each output sample is the cast of
  its entry, with the value \<open>\<lfloor>entry\<rfloor>\<close>: the cast to 8 bits does not wrap.
\<close>

theorem add_noise_in_range:
  assumes "0 < noise_amount self" and "add_noise rng self img = Some out"
  shows "\<exists>noise. rng (noise_amount self) = Some noise \<and>
           length (samples out) = length (samples img) \<and>
           (\<forall>i < length (samples img).
              0 \<le> noisy_float noise img i \<and> noisy_float noise img i \<le> 255 \<and>
              samples out ! i = astype_uint8 (noisy_float noise img i) \<and>
              uint (samples out ! i) = \<lfloor>noisy_float noise img i\<rfloor>)"
proof -
  from assms obtain noise where n: "rng (noise_amount self) = Some noise"
    and out: "out = img\<lparr>samples := map (\<lambda>i. astype_uint8 (noisy_float noise img i))
                                        [0..<length (samples img)]\<rparr>"
    by (auto simp: add_noise_def split: option.splits if_splits)
  have b: "\<And>i. 0 \<le> noisy_float noise img i \<and> noisy_float noise img i \<le> 255"
    unfolding noisy_float_def by (rule np_clip_bounds)
  show ?thesis
    using n out b by (auto simp: astype_uint8_exact)
qed

lemma extreme_noisy:
  "noisy_float extreme_draws bright_pixel 0 = 0 \<and>
   noisy_float extreme_draws bright_pixel 1 = 255 \<and>
   noisy_float extreme_draws bright_pixel 2 = 255"
proof -
  have a: "fl64 (- 999) = - 999" by code_simp
  have b: "fl64 1200 = 1200" by code_simp
  have c: "fl64 (511 / 2) = 511 / 2" by code_simp
  show ?thesis
    by (simp add: noisy_float_def extreme_draws_def bright_pixel_def np_clip_def a b c)
qed

text \<open>Draws of \<open>-1000\<close>, \<open>1000\<close> and \<open>1/2\<close> on the samples 1, 200 and 255 give 0, 255 and
  255.\<close>

theorem add_noise_in_range_witness:
  "0 < noise_amount (ex_self :: unit corruptor) \<and>
   add_noise extreme_rng (ex_self :: unit corruptor) bright_pixel =
     Some (bright_pixel\<lparr>samples := [0, 255, 255]\<rparr>) \<and>
   0 \<le> noisy_float extreme_draws bright_pixel 0 \<and>
   noisy_float extreme_draws bright_pixel 0 \<le> 255 \<and>
   uint (0 :: 8 word) = \<lfloor>noisy_float extreme_draws bright_pixel 0\<rfloor> \<and>
   0 \<le> noisy_float extreme_draws bright_pixel 1 \<and>
   noisy_float extreme_draws bright_pixel 1 \<le> 255 \<and>
   uint (255 :: 8 word) = \<lfloor>noisy_float extreme_draws bright_pixel 1\<rfloor> \<and>
   0 \<le> noisy_float extreme_draws bright_pixel 2 \<and>
   noisy_float extreme_draws bright_pixel 2 \<le> 255 \<and>
   uint (255 :: 8 word) = \<lfloor>noisy_float extreme_draws bright_pixel 2\<rfloor>"
proof -
  have p: "0 < noise_amount (ex_self :: unit corruptor)" by (simp add: ex_self_def)
  have r: "extreme_rng (noise_amount (ex_self :: unit corruptor)) = Some extreme_draws"
    by (simp add: extreme_rng_def ex_self_def)
  have l: "length (samples bright_pixel) = 3" by (simp add: bright_pixel_def)
  have u: "[0..<3] = [0, 1, 2]" by (simp add: upt_rec)
  have o: "add_noise extreme_rng (ex_self :: unit corruptor) bright_pixel =
     Some (bright_pixel\<lparr>samples := [0, 255, 255]\<rparr>)"
    using r l u extreme_noisy
    by (simp add: add_noise_def ex_self_def astype_uint8_def float_to_int_def)
  from add_noise_in_range [OF p o] r l
  have q: "\<forall>i < 3. 0 \<le> noisy_float extreme_draws bright_pixel i \<and>
             noisy_float extreme_draws bright_pixel i \<le> 255 \<and>
             uint ([0, 255, 255 :: 8 word] ! i) = \<lfloor>noisy_float extreme_draws bright_pixel i\<rfloor>"
    by fastforce
  have "(0 :: nat) < 3" "(1 :: nat) < 3" "(2 :: nat) < 3" by simp_all
  from q [rule_format, OF this(1)] q [rule_format, OF this(2)] q [rule_format, OF this(3)]
  show ?thesis using p o by simp
qed

section \<open>Clamping of the parameters\<close>

text \<open>
  Claim C9. For each of the five parameters and every integer the user sends, the value
  that \<open>handle_text_input\<close> passes to \<open>update_settings\<close> is the input clamped into the
  documented range of the parameter: it lies in the range, and it is the input itself when
  the input already lies in the range. When the user has a row in the settings table
  (every user who reaches the handler has one, from \<open>get_settings\<close>), this value is what
  the table then holds.
\<close>

theorem handle_text_input_clamps:
  assumes "py_int B text = Some v" and "(key, lo, hi) \<in> set documented_ranges"
  shows "\<exists>c. c = max lo (min hi v) \<and> lo \<le> c \<and> c \<le> hi \<and> (lo \<le> v \<and> v \<le> hi \<longrightarrow> c = v) \<and>
           fst (handle_text_input B db user_id (Some key) text) =
             snd (get_settings (update_settings db user_id [(key, IntV c)]) user_id) \<and>
           (db user_id \<noteq> None \<longrightarrow>
              stored (fst (handle_text_input B db user_id (Some key) text)) user_id key =
                Some (IntV c))"
proof -
  have r: "lo \<le> hi" using assms(2) by (auto simp: documented_ranges_def)
  have h: "fst (handle_text_input B db user_id (Some key) text) =
           snd (get_settings (update_settings db user_id [(key, IntV (max lo (min hi v)))]) user_id)"
    by (rule handle_numeric [OF assms])
  have s: "db user_id \<noteq> None \<longrightarrow>
     stored (snd (get_settings (update_settings db user_id [(key, IntV (max lo (min hi v)))])
        user_id)) user_id key = Some (IntV (max lo (min hi v)))"
    using stored_update [OF _ assms(2)] by auto
  show ?thesis using r h s by auto
qed

text \<open>The input 25 for the blur is stored as 20, the input 7 as 7.\<close>

theorem handle_text_input_clamps_witness:
  "py_int ex_builtins ''25'' = Some 25 \<and> (''blur'', 0, 20) \<in> set documented_ranges \<and>
   ex_db 42 \<noteq> None \<and>
   stored (fst (handle_text_input ex_builtins ex_db 42 (Some ''blur'') ''25'')) 42 ''blur'' =
     Some (IntV 20) \<and>
   py_int ex_builtins ''7'' = Some 7 \<and>
   stored (fst (handle_text_input ex_builtins ex_db 42 (Some ''blur'') ''7'')) 42 ''blur'' =
     Some (IntV 7)"
proof -
  have a: "py_int ex_builtins ''25'' = Some 25" by (simp add: ex_builtins_def)
  have a7: "py_int ex_builtins ''7'' = Some 7" by (simp add: ex_builtins_def)
  have b: "(''blur'', 0, 20) \<in> set documented_ranges" by (simp add: documented_ranges_def)
  have d: "ex_db 42 \<noteq> None" by (simp add: ex_db_def)
  from handle_text_input_clamps [OF a b, of ex_db 42] d
  have s25: "stored (fst (handle_text_input ex_builtins ex_db 42 (Some ''blur'') ''25'')) 42
      ''blur'' = Some (IntV 20)"
    by fastforce
  from handle_text_input_clamps [OF a7 b, of ex_db 42] d
  have s7: "stored (fst (handle_text_input ex_builtins ex_db 42 (Some ''blur'') ''7'')) 42
      ''blur'' = Some (IntV 7)"
    by fastforce
  show ?thesis using a a7 b d s25 s7 by blast
qed

end
